theory Spec2Isabelle
  imports Complex_Main "HOL-Library.Word"
begin

section \<open>Strings and values of the JavaScript runtime\<close>

text \<open>
  A JavaScript string is a sequence of UTF-16 code units. \<open>str\<close> writes an ASCII literal
  as such a sequence.
\<close>

type_synonym jsstring = "16 word list"

definition str :: "string \<Rightarrow> jsstring" where
  "str s = map of_char s"

text \<open>
  \<open>String.prototype.trim\<close> strips, at both ends, the code units of the ECMAScript
  productions WhiteSpace (TAB, VT, FF, ZWNBSP and the Unicode category Zs) and
  LineTerminator (LF, CR, LS, PS). All of them lie in the basic multilingual plane, so the
  test is on single code units.
\<close>

definition is_ws :: "16 word \<Rightarrow> bool" where
  "is_ws c \<longleftrightarrow>
     c = 0x0009 \<or> c = 0x000A \<or> c = 0x000B \<or> c = 0x000C \<or> c = 0x000D \<or> c = 0x0020
   \<or> c = 0x00A0 \<or> c = 0x1680 \<or> (0x2000 \<le> c \<and> c \<le> 0x200A) \<or> c = 0x2028
   \<or> c = 0x2029 \<or> c = 0x202F \<or> c = 0x205F \<or> c = 0x3000 \<or> c = 0xFEFF"

definition trim :: "jsstring \<Rightarrow> jsstring" where
  "trim s = rev (dropWhile is_ws (rev (dropWhile is_ws s)))"

text \<open>
  The values that reach the page at run time: the results of \<open>JSON.parse\<close>, and
  \<open>undefined\<close> for a property that is not there. A number is kept as the text of its
  literal (no operation of the program computes with a parsed number). An object is the
  list of its members in source order; a lookup takes the last member of a name, as
  \<open>JSON.parse\<close> keeps the last of two members with one name.
\<close>

datatype jsval =
    VUndefined
  | VNull
  | VBool bool
  | VNumber jsstring
  | VString jsstring
  | VArray "jsval list"
  | VObject "(jsstring \<times> jsval) list"

datatype exn = SyntaxError | TypeError | NetworkError

section \<open>JSON.parse\<close>

text \<open>
  \<open>JSON.parse\<close> belongs to the language, not to the repository. It is modelled after the
  JSON grammar of ECMA-404, in two passes: \<open>lex\<close> cuts the text into tokens (decoding the
  escapes of strings and checking the form of numbers), and \<open>prun\<close> reads the tokens with
  a stack of the arrays and objects that are still open. \<open>None\<close> stands for the
  \<open>SyntaxError\<close> the function throws.
\<close>

datatype token =
    TLBracket | TRBracket | TLBrace | TRBrace | TComma | TColon
  | TTrue | TFalse | TNull
  | TNum jsstring
  | TStr jsstring

text \<open>White space of JSON is space, tab, line feed and carriage return only.\<close>

definition is_json_ws :: "16 word \<Rightarrow> bool" where
  "is_json_ws c \<longleftrightarrow> c = 0x20 \<or> c = 0x09 \<or> c = 0x0A \<or> c = 0x0D"

definition is_digit :: "16 word \<Rightarrow> bool" where
  "is_digit c \<longleftrightarrow> 0x30 \<le> c \<and> c \<le> 0x39"

definition hex_val :: "16 word \<Rightarrow> 16 word option" where
  "hex_val c =
     (if 0x30 \<le> c \<and> c \<le> 0x39 then Some (c - 0x30)
      else if 0x41 \<le> c \<and> c \<le> 0x46 then Some (c - 0x37)
      else if 0x61 \<le> c \<and> c \<le> 0x66 then Some (c - 0x57)
      else None)"

definition hex4 :: "16 word \<Rightarrow> 16 word \<Rightarrow> 16 word \<Rightarrow> 16 word \<Rightarrow> 16 word option" where
  "hex4 a b c d =
     (case (hex_val a, hex_val b, hex_val c, hex_val d) of
        (Some x, Some y, Some z, Some w) \<Rightarrow> Some (((x * 16 + y) * 16 + z) * 16 + w)
      | _ \<Rightarrow> None)"

definition unescape :: "16 word \<Rightarrow> 16 word option" where
  "unescape e =
     (if e = 0x22 \<or> e = 0x5C \<or> e = 0x2F then Some e
      else if e = 0x62 then Some 0x08
      else if e = 0x66 then Some 0x0C
      else if e = 0x6E then Some 0x0A
      else if e = 0x72 then Some 0x0D
      else if e = 0x74 then Some 0x09
      else None)"

text \<open>
  The body of a string, after the opening quotation mark: the decoded code units and the
  text after the closing quotation mark. Control characters below U+0020 must be escaped.
\<close>

definition consume :: "16 word \<Rightarrow> (jsstring \<times> jsstring) option \<Rightarrow> (jsstring \<times> jsstring) option" where
  "consume c r = (case r of None \<Rightarrow> None | Some (s, rest) \<Rightarrow> Some (c # s, rest))"

fun lex_string :: "jsstring \<Rightarrow> (jsstring \<times> jsstring) option" where
  "lex_string [] = None"
| "lex_string (c # cs) =
     (if c = 0x22 then Some ([], cs)
      else if c = 0x5C then
        (case cs of
           [] \<Rightarrow> None
         | e # cs' \<Rightarrow>
             if e = 0x75 then
               (case cs' of
                  a # b # c' # d # cs'' \<Rightarrow>
                    (case hex4 a b c' d of
                       None \<Rightarrow> None
                     | Some u \<Rightarrow> consume u (lex_string cs''))
                | _ \<Rightarrow> None)
             else
               (case unescape e of
                  None \<Rightarrow> None
                | Some u \<Rightarrow> consume u (lex_string cs')))
      else if c < 0x20 then None
      else consume c (lex_string cs))"

text \<open>
  A number is an optional minus, an integer part without a leading zero (or a single
  zero), an optional fraction and an optional exponent; each part gives its text and the
  text that follows.
\<close>

definition lex_int :: "jsstring \<Rightarrow> (jsstring \<times> jsstring) option" where
  "lex_int cs =
     (case cs of
        [] \<Rightarrow> None
      | d # rest \<Rightarrow>
          if d = 0x30 then Some ([d], rest)
          else if is_digit d then Some (d # takeWhile is_digit rest, dropWhile is_digit rest)
          else None)"

definition lex_digits1 :: "jsstring \<Rightarrow> (jsstring \<times> jsstring) option" where
  "lex_digits1 cs =
     (if takeWhile is_digit cs = [] then None
      else Some (takeWhile is_digit cs, dropWhile is_digit cs))"

definition lex_frac :: "jsstring \<Rightarrow> (jsstring \<times> jsstring) option" where
  "lex_frac cs =
     (case cs of
        [] \<Rightarrow> Some ([], cs)
      | p # rest \<Rightarrow>
          if p = 0x2E then consume p (lex_digits1 rest) else Some ([], cs))"

definition lex_exp :: "jsstring \<Rightarrow> (jsstring \<times> jsstring) option" where
  "lex_exp cs =
     (case cs of
        [] \<Rightarrow> Some ([], cs)
      | e # rest \<Rightarrow>
          if e = 0x65 \<or> e = 0x45 then
            (case rest of
               [] \<Rightarrow> None
             | s # rest' \<Rightarrow>
                 if s = 0x2B \<or> s = 0x2D then consume e (consume s (lex_digits1 rest'))
                 else consume e (lex_digits1 rest))
          else Some ([], cs))"

definition lex_number :: "jsstring \<Rightarrow> (jsstring \<times> jsstring) option" where
  "lex_number cs =
     (case cs of
        [] \<Rightarrow> None
      | c # rest \<Rightarrow>
          (case (if c = 0x2D then consume c (lex_int rest) else lex_int cs) of
             None \<Rightarrow> None
           | Some (i, r1) \<Rightarrow>
               (case lex_frac r1 of
                  None \<Rightarrow> None
                | Some (f, r2) \<Rightarrow>
                    (case lex_exp r2 of
                       None \<Rightarrow> None
                     | Some (e, r3) \<Rightarrow> Some (i @ f @ e, r3)))))"

definition emit :: "token \<Rightarrow> token list option \<Rightarrow> token list option" where
  "emit t r = (case r of None \<Rightarrow> None | Some ts \<Rightarrow> Some (t # ts))"

text \<open>Every piece leaves a text that is no longer than the one it started from.\<close>

lemma consume_length:
  "consume c r = Some (s, rest) \<Longrightarrow> \<exists>s'. r = Some (s', rest)"
  by (auto simp: consume_def split: option.splits)

lemma lex_string_length: "lex_string cs = Some (s, rest) \<Longrightarrow> length rest < Suc (length cs)"
proof (induction cs arbitrary: s rest rule: lex_string.induct)
  case 1
  then show ?case by simp
next
  case (2 c cs)
  then show ?case
    by (fastforce simp: less_Suc_eq_le split: if_splits list.splits option.splits
        dest!: consume_length)
qed

lemma lex_int_length: "lex_int cs = Some (s, rest) \<Longrightarrow> length rest < length cs"
  by (auto simp: lex_int_def less_Suc_eq_le length_dropWhile_le split: list.splits if_splits)

lemma lex_digits1_length: "lex_digits1 cs = Some (s, rest) \<Longrightarrow> length rest \<le> length cs"
  by (auto simp: lex_digits1_def length_dropWhile_le split: if_splits)

lemma lex_frac_length: "lex_frac cs = Some (s, rest) \<Longrightarrow> length rest \<le> length cs"
  by (fastforce simp: lex_frac_def split: list.splits if_splits
      dest!: consume_length lex_digits1_length)

lemma lex_exp_length: "lex_exp cs = Some (s, rest) \<Longrightarrow> length rest \<le> length cs"
  by (fastforce simp: lex_exp_def split: list.splits if_splits
      dest!: consume_length lex_digits1_length)

lemma lex_number_length:
  assumes "lex_number cs = Some (s, rest)"
  shows "length rest < length cs"
proof -
  from assms obtain c cs' where cs: "cs = c # cs'"
    by (cases cs) (auto simp: lex_number_def)
  from assms cs obtain i r1 f r2 e where
    i: "(if c = 0x2D then consume c (lex_int cs') else lex_int cs) = Some (i, r1)"
    and f: "lex_frac r1 = Some (f, r2)" and e: "lex_exp r2 = Some (e, rest)"
    by (auto simp: lex_number_def split: option.splits)
  from i cs have "length r1 < length cs"
    by (fastforce split: if_splits dest!: consume_length lex_int_length)
  with lex_frac_length [OF f] lex_exp_length [OF e] show ?thesis
    by simp
qed

function lex :: "jsstring \<Rightarrow> token list option" where
  "lex [] = Some []"
| "lex (c # cs) =
     (if is_json_ws c then lex cs
      else if c = 0x5B then emit TLBracket (lex cs)
      else if c = 0x5D then emit TRBracket (lex cs)
      else if c = 0x7B then emit TLBrace (lex cs)
      else if c = 0x7D then emit TRBrace (lex cs)
      else if c = 0x2C then emit TComma (lex cs)
      else if c = 0x3A then emit TColon (lex cs)
      else if c = 0x22 then
        (case lex_string cs of
           None \<Rightarrow> None
         | Some (s, rest) \<Rightarrow> emit (TStr s) (lex rest))
      else if c = 0x2D \<or> is_digit c then
        (case lex_number (c # cs) of
           None \<Rightarrow> None
         | Some (n, rest) \<Rightarrow> emit (TNum n) (lex rest))
      else if c = 0x74 \<and> take 3 cs = [0x72, 0x75, 0x65] then emit TTrue (lex (drop 3 cs))
      else if c = 0x66 \<and> take 4 cs = [0x61, 0x6C, 0x73, 0x65] then emit TFalse (lex (drop 4 cs))
      else if c = 0x6E \<and> take 3 cs = [0x75, 0x6C, 0x6C] then emit TNull (lex (drop 3 cs))
      else None)"
  by pat_completeness auto
termination
  by (relation "measure length") (auto dest: lex_string_length lex_number_length)

text \<open>
  The stack: an open array with its elements so far, an open object with its members so
  far, and an open object whose next member has its name (all in reverse order). The
  state says what the grammar allows next.
\<close>

datatype frame =
    FArr "jsval list"
  | FObj "(jsstring \<times> jsval) list"
  | FKey "(jsstring \<times> jsval) list" jsstring

datatype pstate =
    PValue | PArrStart | PArrNext | PObjStart | PObjKey | PColon | PObjNext | PDone jsval

fun push_val :: "jsval \<Rightarrow> frame list \<Rightarrow> (pstate \<times> frame list) option" where
  "push_val v [] = Some (PDone v, [])"
| "push_val v (FArr vs # st) = Some (PArrNext, FArr (v # vs) # st)"
| "push_val v (FKey ms k # st) = Some (PObjNext, FObj ((k, v) # ms) # st)"
| "push_val v (FObj ms # st) = None"

fun close_arr :: "frame list \<Rightarrow> (pstate \<times> frame list) option" where
  "close_arr (FArr vs # st) = push_val (VArray (rev vs)) st"
| "close_arr _ = None"

fun close_obj :: "frame list \<Rightarrow> (pstate \<times> frame list) option" where
  "close_obj (FObj ms # st) = push_val (VObject (rev ms)) st"
| "close_obj _ = None"

fun open_key :: "jsstring \<Rightarrow> frame list \<Rightarrow> (pstate \<times> frame list) option" where
  "open_key k (FObj ms # st) = Some (PColon, FKey ms k # st)"
| "open_key k _ = None"

fun start_value :: "token \<Rightarrow> frame list \<Rightarrow> (pstate \<times> frame list) option" where
  "start_value TLBracket st = Some (PArrStart, FArr [] # st)"
| "start_value TLBrace st = Some (PObjStart, FObj [] # st)"
| "start_value TTrue st = push_val (VBool True) st"
| "start_value TFalse st = push_val (VBool False) st"
| "start_value TNull st = push_val VNull st"
| "start_value (TNum n) st = push_val (VNumber n) st"
| "start_value (TStr s) st = push_val (VString s) st"
| "start_value _ st = None"

fun pstep :: "pstate \<Rightarrow> frame list \<Rightarrow> token \<Rightarrow> (pstate \<times> frame list) option" where
  "pstep PValue st t = start_value t st"
| "pstep PArrStart st t = (if t = TRBracket then close_arr st else start_value t st)"
| "pstep PArrNext st t =
     (if t = TComma then Some (PValue, st)
      else if t = TRBracket then close_arr st else None)"
| "pstep PObjStart st t =
     (case t of TStr k \<Rightarrow> open_key k st | TRBrace \<Rightarrow> close_obj st | _ \<Rightarrow> None)"
| "pstep PObjKey st t = (case t of TStr k \<Rightarrow> open_key k st | _ \<Rightarrow> None)"
| "pstep PColon st t = (if t = TColon then Some (PValue, st) else None)"
| "pstep PObjNext st t =
     (if t = TComma then Some (PObjKey, st)
      else if t = TRBrace then close_obj st else None)"
| "pstep (PDone v) st t = None"

fun prun :: "pstate \<Rightarrow> frame list \<Rightarrow> token list \<Rightarrow> jsval option" where
  "prun p st [] = (case p of PDone v \<Rightarrow> Some v | _ \<Rightarrow> None)"
| "prun p st (t # ts) =
     (case pstep p st t of None \<Rightarrow> None | Some (p', st') \<Rightarrow> prun p' st' ts)"

definition JSON_parse :: "jsstring \<Rightarrow> jsval option" where
  "JSON_parse s = (case lex s of None \<Rightarrow> None | Some ts \<Rightarrow> prun PValue [] ts)"

section \<open>The data model of the page\<close>

text \<open>
  \<open>getId\<close> is \<open>Date.now() + Math.random()\<close>: a number the environment decides. The
  program only compares identifiers with \<open>===\<close>, which on these (finite, positive)
  numbers is equality. An operation receives the identifiers its calls of \<open>getId\<close> will
  return, in call order; nothing is assumed about them, not even that they differ.
\<close>

type_synonym ident = real

type_synonym id_supply = "nat \<Rightarrow> ident"

definition getId :: "id_supply \<Rightarrow> ident \<times> id_supply" where
  "getId ids = (ids 0, \<lambda>n. ids (Suc n))"

text \<open>
  The types \<open>Subtask\<close> and \<open>Todo\<close> of the page. The field \<open>text\<close> is declared a string
  in TypeScript; the declaration is erased at run time and the generation flow stores
  whatever value the response holds, so the field is a \<open>jsval\<close> here.
\<close>

record Subtask =
  sub_id :: ident
  sub_text :: jsval
  sub_completed :: bool

record Todo =
  todo_id :: ident
  todo_text :: jsval
  todo_completed :: bool
  subtasks :: "Subtask list"

text \<open>The state hooks of the component \<open>Home\<close>.\<close>

record app_state =
  todos :: "Todo list"
  newTodo :: jsstring
  subtaskInputs :: "ident \<rightharpoonup> jsstring"
  aiInput :: jsstring
  showAI :: bool
  loadingAi :: bool

definition initial_state :: app_state where
  "initial_state =
     \<lparr>todos = [], newTodo = [], subtaskInputs = Map.empty, aiInput = [],
      showAI = False, loadingAi = False\<rparr>"

section \<open>The operations on the list\<close>

text \<open>The input boxes: \<open>onChange\<close> stores the typed value.\<close>

definition setNewTodo :: "jsstring \<Rightarrow> app_state \<Rightarrow> app_state" where
  "setNewTodo v st = st\<lparr>newTodo := v\<rparr>"

definition setAiInput :: "jsstring \<Rightarrow> app_state \<Rightarrow> app_state" where
  "setAiInput v st = st\<lparr>aiInput := v\<rparr>"

definition handleSubtaskInputChange :: "ident \<Rightarrow> jsstring \<Rightarrow> app_state \<Rightarrow> app_state" where
  "handleSubtaskInputChange todoId v st =
     st\<lparr>subtaskInputs := (subtaskInputs st)(todoId \<mapsto> v)\<rparr>"

definition addTodo :: "id_supply \<Rightarrow> app_state \<Rightarrow> app_state" where
  "addTodo ids st =
     (if trim (newTodo st) = [] then st
      else
        let todo = \<lparr>todo_id = fst (getId ids), todo_text = VString (trim (newTodo st)),
                    todo_completed = False, subtasks = []\<rparr>
        in st\<lparr>todos := todo # todos st, newTodo := []\<rparr>)"

definition toggleTodo :: "ident \<Rightarrow> app_state \<Rightarrow> app_state" where
  "toggleTodo i st =
     st\<lparr>todos :=
        map (\<lambda>todo. if todo_id todo = i
                     then todo\<lparr>todo_completed := \<not> todo_completed todo\<rparr> else todo)
          (todos st)\<rparr>"

definition deleteTodo :: "ident \<Rightarrow> app_state \<Rightarrow> app_state" where
  "deleteTodo i st = st\<lparr>todos := filter (\<lambda>todo. todo_id todo \<noteq> i) (todos st)\<rparr>"

text \<open>
  \<open>addSubtask\<close> calls \<open>getId\<close> inside the callback of \<open>map\<close>, once for every list entry
  whose identifier matches.
\<close>

fun addSubtask_map :: "id_supply \<Rightarrow> ident \<Rightarrow> jsstring \<Rightarrow> Todo list \<Rightarrow> Todo list" where
  "addSubtask_map ids todoId subtaskText [] = []"
| "addSubtask_map ids todoId subtaskText (todo # rest) =
     (if todo_id todo = todoId
      then
        (case getId ids of
           (g, ids') \<Rightarrow>
             todo\<lparr>subtasks :=
                 subtasks todo
                 @ [\<lparr>sub_id = g, sub_text = VString subtaskText, sub_completed = False\<rparr>]\<rparr>
             # addSubtask_map ids' todoId subtaskText rest)
      else todo # addSubtask_map ids todoId subtaskText rest)"

definition addSubtask :: "id_supply \<Rightarrow> ident \<Rightarrow> jsstring \<Rightarrow> app_state \<Rightarrow> app_state" where
  "addSubtask ids todoId subtaskText st =
     st\<lparr>todos := addSubtask_map ids todoId subtaskText (todos st)\<rparr>"

definition toggleSubtask :: "ident \<Rightarrow> ident \<Rightarrow> app_state \<Rightarrow> app_state" where
  "toggleSubtask todoId subtaskId st =
     st\<lparr>todos :=
        map (\<lambda>todo. if todo_id todo = todoId
                     then todo\<lparr>subtasks :=
                            map (\<lambda>sub. if sub_id sub = subtaskId
                                        then sub\<lparr>sub_completed := \<not> sub_completed sub\<rparr>
                                        else sub)
                              (subtasks todo)\<rparr>
                     else todo)
          (todos st)\<rparr>"

text \<open>
  The submit handler of a subtask form, the only caller of \<open>addSubtask\<close>:
  \<open>subtaskInputs[todoId]?.trim()\<close> is \<open>undefined\<close> for a missing entry, and \<open>!text\<close>
  holds for \<open>undefined\<close> and for the empty string.
\<close>

definition handleSubtaskSubmit :: "id_supply \<Rightarrow> ident \<Rightarrow> app_state \<Rightarrow> app_state" where
  "handleSubtaskSubmit ids todoId st =
     (case subtaskInputs st todoId of
        None \<Rightarrow> st
      | Some v \<Rightarrow>
          if trim v = [] then st
          else (addSubtask ids todoId (trim v) st)
                 \<lparr>subtaskInputs := (subtaskInputs (addSubtask ids todoId (trim v) st))(todoId \<mapsto> [])\<rparr>)"

section \<open>Reading properties of run-time values\<close>

text \<open>
  \<open>v.name\<close> for the names the program reads (\<open>prompt\<close>, \<open>tasks\<close>, \<open>task\<close>,
  \<open>subtasks\<close>), none of which any built-in prototype defines: a \<open>TypeError\<close> on
  \<open>undefined\<close> and \<open>null\<close>, the member of an object, \<open>undefined\<close> otherwise.
\<close>

definition own_prop :: "(jsstring \<times> jsval) list \<Rightarrow> jsstring \<Rightarrow> jsval" where
  "own_prop ms k = (case map_of (rev ms) k of None \<Rightarrow> VUndefined | Some v \<Rightarrow> v)"

fun get_prop :: "jsval \<Rightarrow> jsstring \<Rightarrow> exn + jsval" where
  "get_prop VUndefined k = Inl TypeError"
| "get_prop VNull k = Inl TypeError"
| "get_prop (VObject ms) k = Inr (own_prop ms k)"
| "get_prop v k = Inr VUndefined"

text \<open>
  \<open>v.map(f)\<close>: only an array has a callable \<open>map\<close>. On \<open>undefined\<close> and \<open>null\<close> the
  read of \<open>map\<close> throws; on every other value \<open>v.map\<close> is \<open>undefined\<close> or, for an object
  with a member of that name, a value of a JSON text, which is never a function: the call
  throws a \<open>TypeError\<close>. The result is the list the callback will be applied to.
\<close>

fun map_receiver :: "jsval \<Rightarrow> exn + jsval list" where
  "map_receiver (VArray xs) = Inr xs"
| "map_receiver v = Inl TypeError"

section \<open>The generation flow of the page\<close>

fun mk_subtasks :: "id_supply \<Rightarrow> jsval list \<Rightarrow> Subtask list \<times> id_supply" where
  "mk_subtasks ids [] = ([], ids)"
| "mk_subtasks ids (sub # rest) =
     (case getId ids of
        (g, ids') \<Rightarrow>
          (case mk_subtasks ids' rest of
             (ss, ids'') \<Rightarrow>
               (\<lparr>sub_id = g, sub_text = sub, sub_completed = False\<rparr> # ss, ids'')))"

text \<open>
  The callback of \<open>generatedTodos.map\<close>. The object literal is evaluated in the order of
  its members: \<open>getId()\<close>, \<open>item.task\<close>, then \<open>item.subtasks.map(...)\<close>.
\<close>

definition mk_todo :: "id_supply \<Rightarrow> jsval \<Rightarrow> exn + (Todo \<times> id_supply)" where
  "mk_todo ids item =
     (case getId ids of
        (g, ids1) \<Rightarrow>
          (case get_prop item (str ''task'') of
             Inl e \<Rightarrow> Inl e
           | Inr t \<Rightarrow>
               (case get_prop item (str ''subtasks'') of
                  Inl e \<Rightarrow> Inl e
                | Inr s \<Rightarrow>
                    (case map_receiver s of
                       Inl e \<Rightarrow> Inl e
                     | Inr subs \<Rightarrow>
                         (case mk_subtasks ids1 subs of
                            (ss, ids2) \<Rightarrow>
                              Inr (\<lparr>todo_id = g, todo_text = t, todo_completed = False,
                                    subtasks = ss\<rparr>, ids2))))))"

fun mk_todos :: "id_supply \<Rightarrow> jsval list \<Rightarrow> exn + Todo list" where
  "mk_todos ids [] = Inr []"
| "mk_todos ids (item # rest) =
     (case mk_todo ids item of
        Inl e \<Rightarrow> Inl e
      | Inr (todo, ids') \<Rightarrow>
          (case mk_todos ids' rest of
             Inl e \<Rightarrow> Inl e
           | Inr ts \<Rightarrow> Inr (todo # ts)))"

text \<open>
  What \<open>fetch\<close> and \<open>res.json()\<close> give the page: the request is rejected, or a response
  arrives whose body parses to a value (\<open>Some\<close>) or does not parse (\<open>None\<close>). The page
  never looks at the status of the response.
\<close>

datatype fetch_outcome = FetchRejected | FetchBody "jsval option"

text \<open>The \<open>try\<close> block up to \<open>newTasks\<close>.\<close>

definition newTasks :: "id_supply \<Rightarrow> fetch_outcome \<Rightarrow> exn + Todo list" where
  "newTasks ids outcome =
     (case outcome of
        FetchRejected \<Rightarrow> Inl NetworkError
      | FetchBody None \<Rightarrow> Inl SyntaxError
      | FetchBody (Some data) \<Rightarrow>
          (case get_prop data (str ''tasks'') of
             Inl e \<Rightarrow> Inl e
           | Inr generatedTodos \<Rightarrow>
               (case map_receiver generatedTodos of
                  Inl e \<Rightarrow> Inl e
                | Inr items \<Rightarrow> mk_todos ids items)))"

text \<open>
  \<open>generateWithAI\<close> up to the \<open>await\<close>: nothing happens on a blank prompt (\<open>None\<close>: no
  request is sent); otherwise the loading flag is raised and the prompt is sent.
\<close>

definition generateWithAI_request :: "app_state \<Rightarrow> (app_state \<times> jsstring) option" where
  "generateWithAI_request st =
     (if trim (aiInput st) = [] then None
      else Some (st\<lparr>loadingAi := True\<rparr>, aiInput st))"

text \<open>
  \<open>generateWithAI\<close> from the \<open>await\<close> on, in the state the page has when the request
  settles. The result is a sum so that an exception leaving the function would be a value
  \<open>Inl\<close>; the \<open>catch\<close> clause takes every exception of the \<open>try\<close> block and only logs it,
  and \<open>finally\<close> lowers the loading flag on both paths.
\<close>

definition generateWithAI_settle :: "id_supply \<Rightarrow> fetch_outcome \<Rightarrow> app_state \<Rightarrow> exn + app_state" where
  "generateWithAI_settle ids outcome st =
     (case newTasks ids outcome of
        Inr ts \<Rightarrow> Inr (st\<lparr>todos := ts @ todos st, aiInput := [], loadingAi := False\<rparr>)
      | Inl e \<Rightarrow> Inr (st\<lparr>loadingAi := False\<rparr>))"

text \<open>One whole invocation, with no other handler running while the request is out.\<close>

definition generateWithAI :: "id_supply \<Rightarrow> (jsstring \<Rightarrow> fetch_outcome) \<Rightarrow> app_state \<Rightarrow> exn + app_state" where
  "generateWithAI ids fetch st =
     (case generateWithAI_request st of
        None \<Rightarrow> Inr st
      | Some (st1, prompt) \<Rightarrow> generateWithAI_settle ids (fetch prompt) st1)"

section \<open>The route handler\<close>

text \<open>
  The completion service is outside the program: \<open>create\<close> either rejects or returns a
  chat whose choices each carry a content that is a string or \<open>null\<close> (the types of the
  client library). The handler receives it as a function of the prompt it sends.
\<close>

datatype completion = CreateRejected | Chat "jsstring option list"

record response =
  status :: nat
  body :: jsval

definition tasks_body :: "jsval \<Rightarrow> jsval" where
  "tasks_body v = VObject [(str ''tasks'', v)]"

text \<open>
  \<open>POST\<close>. The request body is read and destructured before the \<open>try\<close>, so a body that is
  not JSON (\<open>Inl\<close>) or is \<open>null\<close> makes the handler itself throw. Inside the \<open>try\<close>:
  a rejected call, or \<open>choices[0]\<close> being \<open>undefined\<close>, goes to the outer \<open>catch\<close>;
  \<open>content || ''\<close> turns \<open>null\<close> into the empty string; the inner \<open>catch\<close> leaves
  \<open>parsed\<close> at its initial value \<open>[]\<close>.
\<close>

definition POST :: "(jsval \<Rightarrow> completion) \<Rightarrow> exn + jsval \<Rightarrow> exn + response" where
  "POST create req_json =
     (case req_json of
        Inl e \<Rightarrow> Inl e
      | Inr req \<Rightarrow>
          (case get_prop req (str ''prompt'') of
             Inl e \<Rightarrow> Inl e
           | Inr prompt \<Rightarrow>
               (case create prompt of
                  CreateRejected \<Rightarrow> Inr \<lparr>status = 500, body = tasks_body (VArray [])\<rparr>
                | Chat [] \<Rightarrow> Inr \<lparr>status = 500, body = tasks_body (VArray [])\<rparr>
                | Chat (content # others) \<Rightarrow>
                    (let raw = (case content of None \<Rightarrow> [] | Some s \<Rightarrow> s);
                         parsed = (case JSON_parse raw of None \<Rightarrow> VArray [] | Some v \<Rightarrow> v)
                     in Inr \<lparr>status = 200, body = tasks_body parsed\<rparr>))))"

text \<open>
  The page and the handler joined: the page sends \<open>{prompt: aiInput}\<close> and reads the
  body of the answer. Serialising a value and parsing it again gives the value back (for
  numbers, up to the spelling of the literal); a handler that throws is answered by the
  framework with a body that is not JSON.
\<close>

definition fetch_ai_generate :: "(jsval \<Rightarrow> completion) \<Rightarrow> jsstring \<Rightarrow> fetch_outcome" where
  "fetch_ai_generate create prompt =
     (case POST create (Inr (VObject [(str ''prompt'', VString prompt)])) of
        Inl e \<Rightarrow> FetchBody None
      | Inr r \<Rightarrow> FetchBody (Some (body r)))"

section \<open>Sequences of user actions\<close>

datatype action =
    SetNewTodo jsstring
  | AddTodo id_supply
  | ToggleTodo ident
  | DeleteTodo ident
  | SubtaskInputChange ident jsstring
  | SubtaskSubmit id_supply ident
  | ToggleSubtask ident ident
  | SetAiInput jsstring
  | ToggleShowAI
  | GenerateWithAI id_supply "jsstring \<Rightarrow> fetch_outcome"

fun dispatch :: "app_state \<Rightarrow> action \<Rightarrow> app_state" where
  "dispatch st (SetNewTodo v) = setNewTodo v st"
| "dispatch st (AddTodo ids) = addTodo ids st"
| "dispatch st (ToggleTodo i) = toggleTodo i st"
| "dispatch st (DeleteTodo i) = deleteTodo i st"
| "dispatch st (SubtaskInputChange i v) = handleSubtaskInputChange i v st"
| "dispatch st (SubtaskSubmit ids i) = handleSubtaskSubmit ids i st"
| "dispatch st (ToggleSubtask i j) = toggleSubtask i j st"
| "dispatch st (SetAiInput v) = setAiInput v st"
| "dispatch st ToggleShowAI = st\<lparr>showAI := \<not> showAI st\<rparr>"
| "dispatch st (GenerateWithAI ids fetch) =
     (case generateWithAI ids fetch st of Inl e \<Rightarrow> st | Inr st' \<Rightarrow> st')"

definition run_actions :: "app_state \<Rightarrow> action list \<Rightarrow> app_state" where
  "run_actions st acts = foldl dispatch st acts"

fun is_generate :: "action \<Rightarrow> bool" where
  "is_generate (GenerateWithAI ids fetch) = True"
| "is_generate a = False"

text \<open>A text is blank when it is a string of white space only (the empty string included).\<close>

fun blank_text :: "jsval \<Rightarrow> bool" where
  "blank_text (VString s) = list_all is_ws s"
| "blank_text v = False"

definition no_blank :: "Todo list \<Rightarrow> bool" where
  "no_blank ts \<longleftrightarrow>
     list_all (\<lambda>todo. \<not> blank_text (todo_text todo)
                      \<and> list_all (\<lambda>sub. \<not> blank_text (sub_text sub)) (subtasks todo)) ts"

section \<open>The shape of a generated task\<close>

text \<open>
  The type \<open>GeneratedTask\<close> of the route handler, \<open>{task: string; subtasks: string[]}\<close>,
  as a test on run-time values, and the relation between an entry of the list and the
  element of the response it was made from.
\<close>

fun is_string :: "jsval \<Rightarrow> bool" where
  "is_string (VString s) = True"
| "is_string v = False"

definition is_GeneratedTask :: "jsval \<Rightarrow> bool" where
  "is_GeneratedTask item =
     (case item of
        VObject ms \<Rightarrow>
          is_string (own_prop ms (str ''task''))
          \<and> (case own_prop ms (str ''subtasks'') of
                VArray subs \<Rightarrow> list_all is_string subs
              | _ \<Rightarrow> False)
      | _ \<Rightarrow> False)"

definition is_GeneratedTask_array :: "jsval \<Rightarrow> bool" where
  "is_GeneratedTask_array v =
     (case v of VArray items \<Rightarrow> list_all is_GeneratedTask items | _ \<Rightarrow> False)"

definition from_item :: "Todo \<Rightarrow> jsval \<Rightarrow> bool" where
  "from_item todo item \<longleftrightarrow>
     get_prop item (str ''task'') = Inr (todo_text todo)
     \<and> \<not> todo_completed todo
     \<and> get_prop item (str ''subtasks'') = Inr (VArray (map sub_text (subtasks todo)))
     \<and> list_all (\<lambda>sub. \<not> sub_completed sub) (subtasks todo)"

section \<open>Sample values\<close>

definition sample_state :: app_state where
  "sample_state =
     initial_state
       \<lparr>todos :=
          [\<lparr>todo_id = 1, todo_text = VString (str ''Buy milk''), todo_completed = False,
            subtasks =
              [\<lparr>sub_id = 11, sub_text = VString (str ''Oat''), sub_completed = False\<rparr>,
               \<lparr>sub_id = 12, sub_text = VString (str ''Soy''), sub_completed = True\<rparr>]\<rparr>,
           \<lparr>todo_id = 2, todo_text = VString (str ''Walk dog''), todo_completed = True,
            subtasks = []\<rparr>]\<rparr>"

definition plan_trip_text :: jsstring where
  "plan_trip_text = str ''[{\"task\":\"Plan trip\",\"subtasks\":[\"Book flight\",\"Pack bags\"]}]''"

definition plan_trip_value :: jsval where
  "plan_trip_value =
     VArray [VObject [(str ''task'', VString (str ''Plan trip'')),
                      (str ''subtasks'',
                       VArray [VString (str ''Book flight''), VString (str ''Pack bags'')])]]"

definition seven_text :: jsstring where
  "seven_text = str ''[{\"task\":7,\"subtasks\":[]}]''"

definition seven_value :: jsval where
  "seven_value = VArray [VObject [(str ''task'', VNumber (str ''7'')), (str ''subtasks'', VArray [])]]"

definition sample_request :: jsval where
  "sample_request = VObject [(str ''prompt'', VString (str ''Plan a trip''))]"

definition blank_text_response :: jsstring where
  "blank_text_response = str ''[{\"task\":\"\",\"subtasks\":[\" \"]}]''"

section \<open>Adding a task\<close>

text \<open>
  C1. Typing \<open>t\<close> into the task box and adding leaves the list as it was exactly when
  \<open>t\<close> trims to the empty string; otherwise the list gains one task at index 0, with text
  \<open>t\<close> trimmed, not completed, without subtasks, in front of the unchanged former list.
  Two successive adds leave the later task first.
\<close>

theorem addTodo_head:
  "(todos (addTodo ids (setNewTodo t st)) = todos st \<longleftrightarrow> trim t = [])
   \<and> (trim t \<noteq> [] \<longrightarrow>
        todos (addTodo ids (setNewTodo t st))
        = \<lparr>todo_id = ids 0, todo_text = VString (trim t), todo_completed = False,
            subtasks = []\<rparr> # todos st)
   \<and> (trim t \<noteq> [] \<and> trim u \<noteq> [] \<longrightarrow>
        todos (addTodo ids' (setNewTodo u (addTodo ids (setNewTodo t st))))
        = \<lparr>todo_id = ids' 0, todo_text = VString (trim u), todo_completed = False,
            subtasks = []\<rparr>
          # \<lparr>todo_id = ids 0, todo_text = VString (trim t), todo_completed = False,
              subtasks = []\<rparr>
          # todos st)"
  by (simp add: addTodo_def setNewTodo_def getId_def Let_def)

theorem addTodo_head_witness:
  "trim (str ''   '') = []
   \<and> todos (addTodo (\<lambda>n. 1) (setNewTodo (str ''   '') initial_state)) = []
   \<and> trim (str ''Buy milk'') \<noteq> [] \<and> trim (str '' Walk dog  '') \<noteq> []
   \<and> todos (addTodo (\<lambda>n. 2) (setNewTodo (str '' Walk dog  '')
              (addTodo (\<lambda>n. 1) (setNewTodo (str ''Buy milk'') initial_state))))
     = [\<lparr>todo_id = 2, todo_text = VString (str ''Walk dog''), todo_completed = False,
         subtasks = []\<rparr>,
        \<lparr>todo_id = 1, todo_text = VString (str ''Buy milk''), todo_completed = False,
         subtasks = []\<rparr>]"
proof -
  have b: "trim (str ''   '') = []"
    by (simp add: trim_def str_def is_ws_def)
  have m: "trim (str ''Buy milk'') = str ''Buy milk''"
    by (simp add: trim_def str_def is_ws_def)
  have w: "trim (str '' Walk dog  '') = str ''Walk dog''"
    by (simp add: trim_def str_def is_ws_def)
  have ne: "str ''Buy milk'' \<noteq> []" "str ''Walk dog'' \<noteq> []"
    by (simp_all add: str_def)
  have e: "todos initial_state = []"
    by (simp add: initial_state_def)
  show ?thesis
    using addTodo_head [of "\<lambda>n. 1" "str ''   ''" initial_state "str ''   ''" "\<lambda>n. 1"]
      addTodo_head [of "\<lambda>n. 1" "str ''Buy milk''" initial_state "str '' Walk dog  ''" "\<lambda>n. 2"]
    by (simp only: b m w e) (use ne in simp)
qed

section \<open>Toggling and deleting a task\<close>

lemma toggle_map_twice:
  "map (\<lambda>todo. if todo_id todo = i
                then todo\<lparr>todo_completed := \<not> todo_completed todo\<rparr> else todo)
     (map (\<lambda>todo. if todo_id todo = i
                   then todo\<lparr>todo_completed := \<not> todo_completed todo\<rparr> else todo) ts)
   = ts"
  by (induction ts) auto

text \<open>
  C7. Toggling a task twice gives back the state; one toggle keeps the length of the
  list, negates \<open>completed\<close> in every entry with the identifier and nothing else there
  (identifier, text and subtasks stay), leaves every other entry as it is, and touches no
  other part of the state.
\<close>

theorem toggleTodo_involution:
  "toggleTodo i (toggleTodo i st) = st
   \<and> length (todos (toggleTodo i st)) = length (todos st)
   \<and> (\<forall>k < length (todos st).
        (todo_id (todos st ! k) = i \<longrightarrow>
           todos (toggleTodo i st) ! k
           = (todos st ! k)\<lparr>todo_completed := \<not> todo_completed (todos st ! k)\<rparr>)
        \<and> (todo_id (todos st ! k) \<noteq> i \<longrightarrow> todos (toggleTodo i st) ! k = todos st ! k)
        \<and> todo_id (todos (toggleTodo i st) ! k) = todo_id (todos st ! k)
        \<and> todo_text (todos (toggleTodo i st) ! k) = todo_text (todos st ! k)
        \<and> subtasks (todos (toggleTodo i st) ! k) = subtasks (todos st ! k))
   \<and> toggleTodo i st = st\<lparr>todos := todos (toggleTodo i st)\<rparr>"
proof -
  have "toggleTodo i (toggleTodo i st) = st"
    by (simp add: toggleTodo_def toggle_map_twice del: map_map)
  then show ?thesis
    by (simp add: toggleTodo_def)
qed

theorem toggleTodo_involution_witness:
  "(1::nat) < length (todos sample_state) \<and> todo_id (todos sample_state ! 1) = 2
   \<and> todo_completed (todos sample_state ! 1)
   \<and> \<not> todo_completed (todos (toggleTodo 2 sample_state) ! 1)
   \<and> todo_text (todos (toggleTodo 2 sample_state) ! 1) = VString (str ''Walk dog'')
   \<and> todos (toggleTodo 2 sample_state) ! 0 = todos sample_state ! 0
   \<and> toggleTodo 2 (toggleTodo 2 sample_state) = sample_state"
  using toggleTodo_involution [of 2 sample_state]
  by (simp add: sample_state_def initial_state_def)

lemma filter_absent:
  "i \<notin> todo_id ` set ts \<Longrightarrow> filter (\<lambda>todo. todo_id todo \<noteq> i) ts = ts"
  by (induction ts) auto

text \<open>
  C9. After \<open>deleteTodo i\<close> no entry has the identifier \<open>i\<close>; the entries with another
  identifier are the same, in the same order, before and after; when no entry has the
  identifier the state is unchanged (the function is total: nothing is raised), so a
  second application changes nothing; no other part of the state is touched.
\<close>

theorem deleteTodo_removes:
  "i \<notin> todo_id ` set (todos (deleteTodo i st))
   \<and> filter (\<lambda>todo. todo_id todo \<noteq> i) (todos (deleteTodo i st))
     = filter (\<lambda>todo. todo_id todo \<noteq> i) (todos st)
   \<and> (i \<notin> todo_id ` set (todos st) \<longrightarrow> deleteTodo i st = st)
   \<and> deleteTodo i (deleteTodo i st) = deleteTodo i st
   \<and> deleteTodo i st = st\<lparr>todos := todos (deleteTodo i st)\<rparr>"
  by (auto simp: deleteTodo_def filter_absent)

theorem deleteTodo_removes_witness:
  "map todo_id (todos sample_state) = [1, 2]
   \<and> map todo_id (todos (deleteTodo 1 sample_state)) = [2]
   \<and> 5 \<notin> todo_id ` set (todos sample_state)
   \<and> deleteTodo 5 sample_state = sample_state
   \<and> deleteTodo 1 (deleteTodo 1 sample_state) = deleteTodo 1 sample_state"
  using deleteTodo_removes [of 1 sample_state] deleteTodo_removes [of 5 sample_state]
  by (simp add: sample_state_def initial_state_def deleteTodo_def)

section \<open>Subtasks\<close>

lemma addSubtask_map_length: "length (addSubtask_map ids tid t ts) = length ts"
  by (induction ts arbitrary: ids) (auto simp: getId_def)

lemma addSubtask_map_absent:
  "tid \<notin> todo_id ` set ts \<Longrightarrow> addSubtask_map ids tid t ts = ts"
  by (induction ts arbitrary: ids) auto

lemma addSubtask_map_nth:
  "k < length ts \<Longrightarrow>
   addSubtask_map ids tid t ts ! k
   = (if todo_id (ts ! k) = tid
      then (ts ! k)\<lparr>subtasks :=
             subtasks (ts ! k)
             @ [\<lparr>sub_id = ids (length (filter (\<lambda>todo. todo_id todo = tid) (take k ts))),
                 sub_text = VString t, sub_completed = False\<rparr>]\<rparr>
      else ts ! k)"
proof (induction ts arbitrary: ids k)
  case Nil
  then show ?case by simp
next
  case (Cons a ts)
  show ?case
  proof (cases k)
    case 0
    then show ?thesis by (simp add: getId_def)
  next
    case (Suc m)
    with Cons.prems have m: "m < length ts" by simp
    show ?thesis
      using Cons.IH [OF m] Suc by (simp add: getId_def)
  qed
qed

lemma submit_todos:
  "todos (handleSubtaskSubmit ids tid (handleSubtaskInputChange tid t st))
   = (if trim t = [] then todos st else addSubtask_map ids tid (trim t) (todos st))"
  by (simp add: handleSubtaskSubmit_def handleSubtaskInputChange_def addSubtask_def)

text \<open>
  C6. Adding a subtask is typing \<open>t\<close> into the subtask box of the task \<open>tid\<close> and
  submitting the form; the handler trims and rejects, \<open>addSubtask\<close> itself stores the text
  it is given. The list is unchanged when \<open>t\<close> trims to the empty string or no entry has
  the identifier. Otherwise the list keeps its length, every entry with another
  identifier is as before, and an entry with the identifier differs from before only in
  its subtasks, which are the former ones followed by one new subtask with the trimmed
  text, not completed.
\<close>

theorem handleSubtaskSubmit_appends:
  "(trim t = [] \<or> tid \<notin> todo_id ` set (todos st) \<longrightarrow>
      todos (handleSubtaskSubmit ids tid (handleSubtaskInputChange tid t st)) = todos st)
   \<and> length (todos (handleSubtaskSubmit ids tid (handleSubtaskInputChange tid t st)))
     = length (todos st)
   \<and> (trim t \<noteq> [] \<longrightarrow>
        (\<forall>k < length (todos st).
           (todo_id (todos st ! k) \<noteq> tid \<longrightarrow>
              todos (handleSubtaskSubmit ids tid (handleSubtaskInputChange tid t st)) ! k
              = todos st ! k)
         \<and> (todo_id (todos st ! k) = tid \<longrightarrow>
              (\<exists>g. todos (handleSubtaskSubmit ids tid (handleSubtaskInputChange tid t st)) ! k
                 = (todos st ! k)\<lparr>subtasks :=
                      subtasks (todos st ! k)
                      @ [\<lparr>sub_id = g, sub_text = VString (trim t),
                          sub_completed = False\<rparr>]\<rparr>))))"
  by (auto simp: submit_todos addSubtask_map_length addSubtask_map_absent addSubtask_map_nth)

theorem handleSubtaskSubmit_appends_witness:
  "trim (str '' Rice '') = str ''Rice'' \<and> str ''Rice'' \<noteq> []
   \<and> (0::nat) < length (todos sample_state) \<and> todo_id (todos sample_state ! 0) = 1
   \<and> todos (handleSubtaskSubmit (\<lambda>n. 13) 1
              (handleSubtaskInputChange 1 (str '' Rice '') sample_state))
     = [\<lparr>todo_id = 1, todo_text = VString (str ''Buy milk''), todo_completed = False,
         subtasks =
           [\<lparr>sub_id = 11, sub_text = VString (str ''Oat''), sub_completed = False\<rparr>,
            \<lparr>sub_id = 12, sub_text = VString (str ''Soy''), sub_completed = True\<rparr>,
            \<lparr>sub_id = 13, sub_text = VString (str ''Rice''), sub_completed = False\<rparr>]\<rparr>,
        \<lparr>todo_id = 2, todo_text = VString (str ''Walk dog''), todo_completed = True,
         subtasks = []\<rparr>]
   \<and> todos (handleSubtaskSubmit (\<lambda>n. 13) 1
              (handleSubtaskInputChange 1 (str ''  '') sample_state))
     = todos sample_state
   \<and> todos (handleSubtaskSubmit (\<lambda>n. 13) 7
              (handleSubtaskInputChange 7 (str '' Rice '') sample_state))
     = todos sample_state"
proof -
  have r: "trim (str '' Rice '') = str ''Rice''"
    by (simp add: trim_def str_def is_ws_def)
  have b: "trim (str ''  '') = []"
    by (simp add: trim_def str_def is_ws_def)
  have ne: "str ''Rice'' \<noteq> []"
    by (simp add: str_def)
  show ?thesis
    using handleSubtaskSubmit_appends [of "str '' Rice ''" 1 sample_state "\<lambda>n. 13"]
      handleSubtaskSubmit_appends [of "str ''  ''" 1 sample_state "\<lambda>n. 13"]
      handleSubtaskSubmit_appends [of "str '' Rice ''" 7 sample_state "\<lambda>n. 13"]
    by (simp add: submit_todos r b ne sample_state_def initial_state_def getId_def)
qed

lemma sub_toggle_absent:
  "sid \<notin> sub_id ` set ss \<Longrightarrow>
   map (\<lambda>sub. if sub_id sub = sid
               then sub\<lparr>sub_completed := \<not> sub_completed sub\<rparr> else sub) ss = ss"
  by (induction ss) auto

lemma toggleSubtask_absent:
  "(\<forall>todo \<in> set ts. todo_id todo = tid \<longrightarrow> sid \<notin> sub_id ` set (subtasks todo)) \<Longrightarrow>
   map (\<lambda>todo. if todo_id todo = tid
                then todo\<lparr>subtasks :=
                       map (\<lambda>sub. if sub_id sub = sid
                                   then sub\<lparr>sub_completed := \<not> sub_completed sub\<rparr>
                                   else sub)
                         (subtasks todo)\<rparr>
                else todo) ts = ts"
  by (induction ts) (auto simp: sub_toggle_absent)

text \<open>
  C8. \<open>toggleSubtask\<close> keeps the length of the list and, in every entry, the
  identifier, the text, the task's own \<open>completed\<close> flag and the number of subtasks; an
  entry with another identifier is unchanged; inside an entry with the identifier \<open>tid\<close>
  a subtask with the identifier \<open>sid\<close> has its \<open>completed\<close> negated and every other
  subtask is unchanged. When no entry with the identifier \<open>tid\<close> has a subtask with the
  identifier \<open>sid\<close> (in particular when no entry has the identifier \<open>tid\<close>) the state is
  unchanged; no other part of the state is touched.
\<close>

theorem toggleSubtask_local:
  "length (todos (toggleSubtask tid sid st)) = length (todos st)
   \<and> (\<forall>k < length (todos st).
        todo_id (todos (toggleSubtask tid sid st) ! k) = todo_id (todos st ! k)
        \<and> todo_text (todos (toggleSubtask tid sid st) ! k) = todo_text (todos st ! k)
        \<and> todo_completed (todos (toggleSubtask tid sid st) ! k) = todo_completed (todos st ! k)
        \<and> length (subtasks (todos (toggleSubtask tid sid st) ! k))
          = length (subtasks (todos st ! k))
        \<and> (todo_id (todos st ! k) \<noteq> tid \<longrightarrow>
             todos (toggleSubtask tid sid st) ! k = todos st ! k)
        \<and> (\<forall>j < length (subtasks (todos st ! k)).
             (todo_id (todos st ! k) = tid \<and> sub_id (subtasks (todos st ! k) ! j) = sid \<longrightarrow>
                subtasks (todos (toggleSubtask tid sid st) ! k) ! j
                = (subtasks (todos st ! k) ! j)
                    \<lparr>sub_completed := \<not> sub_completed (subtasks (todos st ! k) ! j)\<rparr>)
           \<and> (\<not> (todo_id (todos st ! k) = tid \<and> sub_id (subtasks (todos st ! k) ! j) = sid) \<longrightarrow>
                subtasks (todos (toggleSubtask tid sid st) ! k) ! j
                = subtasks (todos st ! k) ! j)))
   \<and> ((\<forall>todo \<in> set (todos st). todo_id todo = tid \<longrightarrow> sid \<notin> sub_id ` set (subtasks todo)) \<longrightarrow>
        toggleSubtask tid sid st = st)
   \<and> toggleSubtask tid sid st = st\<lparr>todos := todos (toggleSubtask tid sid st)\<rparr>"
  by (simp add: toggleSubtask_def toggleSubtask_absent)

theorem toggleSubtask_local_witness:
  "todos (toggleSubtask 1 12 sample_state)
   = [\<lparr>todo_id = 1, todo_text = VString (str ''Buy milk''), todo_completed = False,
        subtasks =
          [\<lparr>sub_id = 11, sub_text = VString (str ''Oat''), sub_completed = False\<rparr>,
           \<lparr>sub_id = 12, sub_text = VString (str ''Soy''), sub_completed = False\<rparr>]\<rparr>,
       \<lparr>todo_id = 2, todo_text = VString (str ''Walk dog''), todo_completed = True,
        subtasks = []\<rparr>]
   \<and> toggleSubtask 1 99 sample_state = sample_state
   \<and> toggleSubtask 2 12 sample_state = sample_state
   \<and> toggleSubtask 7 12 sample_state = sample_state"
  using toggleSubtask_local [of 1 12 sample_state] toggleSubtask_local [of 1 99 sample_state]
    toggleSubtask_local [of 2 12 sample_state] toggleSubtask_local [of 7 12 sample_state]
  by (simp add: sample_state_def initial_state_def toggleSubtask_def)

section \<open>Generated tasks\<close>

lemmas lex_defs = JSON_parse_def str_def is_json_ws_def is_digit_def emit_def consume_def
  lex_number_def lex_int_def lex_frac_def lex_exp_def lex_digits1_def

lemma parse_plan_trip: "JSON_parse plan_trip_text = Some plan_trip_value"
  by (simp add: plan_trip_text_def plan_trip_value_def lex_defs)

lemma parse_not_json: "JSON_parse (str ''not json'') = None"
  by (simp add: lex_defs)

lemma parse_empty: "JSON_parse [] = None"
  by (simp add: lex_defs)

lemma POST_chat:
  "get_prop req (str ''prompt'') = Inr prompt \<Longrightarrow> create prompt = Chat (content # others) \<Longrightarrow>
   POST create (Inr req)
   = Inr \<lparr>status = 200,
          body = tasks_body (case JSON_parse (case content of None \<Rightarrow> [] | Some s \<Rightarrow> s) of
                               None \<Rightarrow> VArray [] | Some v \<Rightarrow> v)\<rparr>"
  by (simp add: POST_def)

lemma get_tasks_body: "get_prop (tasks_body v) (str ''tasks'') = Inr v"
  by (simp add: tasks_body_def own_prop_def)

lemma fetch_chat:
  "create (VString prompt) = Chat (content # others) \<Longrightarrow>
   fetch_ai_generate create prompt
   = FetchBody (Some (tasks_body (case JSON_parse (case content of None \<Rightarrow> [] | Some s \<Rightarrow> s) of
                               None \<Rightarrow> VArray [] | Some v \<Rightarrow> v)))"
  by (simp add: fetch_ai_generate_def POST_def own_prop_def)

lemma mk_subtasks_spec:
  "mk_subtasks ids subs = (ss, ids') \<Longrightarrow>
   map sub_text ss = subs \<and> list_all (\<lambda>sub. \<not> sub_completed sub) ss"
proof (induction subs arbitrary: ids ss ids')
  case Nil
  then show ?case by simp
next
  case (Cons sub subs)
  obtain ss1 ids1 where r: "mk_subtasks (snd (getId ids)) subs = (ss1, ids1)"
    by (cases "mk_subtasks (snd (getId ids)) subs")
  from Cons.prems r have
    "ss = \<lparr>sub_id = fst (getId ids), sub_text = sub, sub_completed = False\<rparr> # ss1"
    by (simp split: prod.splits)
  with Cons.IH [OF r] show ?case by simp
qed

lemma map_receiver_Inr: "map_receiver v = Inr xs \<longleftrightarrow> v = VArray xs"
  by (cases v) auto

lemma mk_todo_Inr:
  "mk_todo ids item = Inr (todo, ids') \<Longrightarrow> from_item todo item"
  by (auto simp: mk_todo_def from_item_def map_receiver_Inr split: prod.splits sum.splits
      dest: mk_subtasks_spec)

lemma mk_todos_Inr:
  "mk_todos ids items = Inr ts \<Longrightarrow> list_all2 from_item ts items"
proof (induction items arbitrary: ids ts)
  case Nil
  then show ?case by simp
next
  case (Cons item items)
  then show ?case
    by (auto split: sum.splits prod.splits dest: mk_todo_Inr)
qed

lemma mk_todo_shape:
  "is_GeneratedTask item \<Longrightarrow> \<exists>todo ids'. mk_todo ids item = Inr (todo, ids')"
  by (auto simp: is_GeneratedTask_def mk_todo_def split: jsval.splits prod.splits)

lemma mk_todos_shape:
  "list_all is_GeneratedTask items \<Longrightarrow> \<exists>ts. mk_todos ids items = Inr ts"
proof (induction items arbitrary: ids)
  case Nil
  then show ?case by simp
next
  case (Cons item items)
  from Cons.prems obtain todo ids' where t: "mk_todo ids item = Inr (todo, ids')"
    using mk_todo_shape [of item ids] by auto
  from Cons.prems Cons.IH [of ids'] obtain ts where "mk_todos ids' items = Inr ts"
    by auto
  with t show ?case by simp
qed


text \<open>
  C4. When the prompt is not blank, the completion returns a text that parses as an
  array, and every element of the array is a \<open>GeneratedTask\<close>, the invocation puts one
  new entry per element in front of the former list, in the order of the elements: the
  text of the entry is the \<open>task\<close> of its element, its subtasks carry the strings of
  \<open>subtasks\<close> in order, and nothing is completed. The response
  \<open>[{"task":"Plan trip","subtasks":["Book flight","Pack bags"]}]\<close> gives one task
  \<open>Plan trip\<close> with the subtasks \<open>Book flight\<close> and \<open>Pack bags\<close>.
\<close>

theorem generated_tasks_prepended:
  "(trim (aiInput st) \<noteq> [] \<and> create (VString (aiInput st)) = Chat (Some raw # others)
    \<and> JSON_parse raw = Some (VArray items) \<and> list_all is_GeneratedTask items \<longrightarrow>
      (\<exists>ts. generateWithAI ids (fetch_ai_generate create) st
             = Inr (st\<lparr>todos := ts @ todos st, aiInput := [], loadingAi := False\<rparr>)
           \<and> list_all2 from_item ts items))
   \<and> JSON_parse plan_trip_text = Some plan_trip_value
   \<and> generateWithAI (\<lambda>n. real n + 1) (fetch_ai_generate (\<lambda>prompt. Chat [Some plan_trip_text]))
       (setAiInput (str ''Plan a trip'') sample_state)
     = Inr (sample_state
             \<lparr>todos :=
                \<lparr>todo_id = 1, todo_text = VString (str ''Plan trip''), todo_completed = False,
                  subtasks =
                    [\<lparr>sub_id = 2, sub_text = VString (str ''Book flight''),
                      sub_completed = False\<rparr>,
                     \<lparr>sub_id = 3, sub_text = VString (str ''Pack bags''),
                      sub_completed = False\<rparr>]\<rparr>
                # todos sample_state\<rparr>)"
proof -
  have general: "\<exists>ts. generateWithAI ids (fetch_ai_generate create) st
             = Inr (st\<lparr>todos := ts @ todos st, aiInput := [], loadingAi := False\<rparr>)
           \<and> list_all2 from_item ts items"
    if a: "trim (aiInput st) \<noteq> []" and c: "create (VString (aiInput st)) = Chat (Some raw # others)"
      and p: "JSON_parse raw = Some (VArray items)" and s: "list_all is_GeneratedTask items"
  proof -
    from mk_todos_shape [OF s] obtain ts where ts: "mk_todos ids items = Inr ts"
      by blast
    have "newTasks ids (fetch_ai_generate create (aiInput st)) = Inr ts"
      using c by (simp add: fetch_chat [of create "aiInput st"] p newTasks_def get_tasks_body ts)
    with a have "generateWithAI ids (fetch_ai_generate create) st
             = Inr (st\<lparr>todos := ts @ todos st, aiInput := [], loadingAi := False\<rparr>)"
      by (simp add: generateWithAI_def generateWithAI_request_def generateWithAI_settle_def)
    with mk_todos_Inr [OF ts] show ?thesis by blast
  qed
  have t: "trim (str ''Plan a trip'') \<noteq> []"
    by (simp add: trim_def str_def is_ws_def)
  have n: "newTasks (\<lambda>n. real n + 1)
             (fetch_ai_generate (\<lambda>prompt. Chat [Some plan_trip_text]) (str ''Plan a trip''))
           = Inr [\<lparr>todo_id = 1, todo_text = VString (str ''Plan trip''), todo_completed = False,
                  subtasks =
                    [\<lparr>sub_id = 2, sub_text = VString (str ''Book flight''),
                      sub_completed = False\<rparr>,
                     \<lparr>sub_id = 3, sub_text = VString (str ''Pack bags''),
                      sub_completed = False\<rparr>]\<rparr>]"
    by (simp add: fetch_chat parse_plan_trip newTasks_def get_tasks_body)
      (simp add: plan_trip_value_def mk_todo_def getId_def own_prop_def str_def)
  have concrete: "generateWithAI (\<lambda>n. real n + 1) (fetch_ai_generate (\<lambda>prompt. Chat [Some plan_trip_text]))
       (setAiInput (str ''Plan a trip'') sample_state)
     = Inr (sample_state
             \<lparr>todos :=
                \<lparr>todo_id = 1, todo_text = VString (str ''Plan trip''), todo_completed = False,
                  subtasks =
                    [\<lparr>sub_id = 2, sub_text = VString (str ''Book flight''),
                      sub_completed = False\<rparr>,
                     \<lparr>sub_id = 3, sub_text = VString (str ''Pack bags''),
                      sub_completed = False\<rparr>]\<rparr>
                # todos sample_state\<rparr>)"
    using t
    by (simp add: generateWithAI_def generateWithAI_request_def generateWithAI_settle_def
        setAiInput_def n)
      (simp add: sample_state_def initial_state_def)
  from general parse_plan_trip concrete show ?thesis by blast
qed


theorem generated_tasks_prepended_witness:
  "trim (aiInput (setAiInput (str ''Plan a trip'') sample_state)) \<noteq> []
   \<and> JSON_parse plan_trip_text = Some plan_trip_value
   \<and> is_GeneratedTask_array plan_trip_value
   \<and> (\<exists>ts. generateWithAI (\<lambda>n. real n + 1)
               (fetch_ai_generate (\<lambda>prompt. Chat [Some plan_trip_text]))
               (setAiInput (str ''Plan a trip'') sample_state)
             = Inr ((setAiInput (str ''Plan a trip'') sample_state)
                      \<lparr>todos := ts @ todos sample_state, aiInput := [], loadingAi := False\<rparr>)
           \<and> length ts = 1
           \<and> todo_text (ts ! 0) = VString (str ''Plan trip'')
           \<and> map sub_text (subtasks (ts ! 0))
             = [VString (str ''Book flight''), VString (str ''Pack bags'')])"
proof -
  have t: "trim (aiInput (setAiInput (str ''Plan a trip'') sample_state)) \<noteq> []"
    by (simp add: setAiInput_def trim_def str_def is_ws_def)
  have s: "list_all is_GeneratedTask
             [VObject [(str ''task'', VString (str ''Plan trip'')),
                       (str ''subtasks'',
                        VArray [VString (str ''Book flight''), VString (str ''Pack bags'')])]]"
    by (simp add: is_GeneratedTask_def own_prop_def str_def)
  have p: "JSON_parse plan_trip_text
           = Some (VArray [VObject [(str ''task'', VString (str ''Plan trip'')),
                       (str ''subtasks'',
                        VArray [VString (str ''Book flight''), VString (str ''Pack bags'')])]])"
    using parse_plan_trip by (simp add: plan_trip_value_def)
  from generated_tasks_prepended
    [of "setAiInput (str ''Plan a trip'') sample_state" "\<lambda>prompt. Chat [Some plan_trip_text]"
      plan_trip_text "[]" _ "\<lambda>n. real n + 1"] t s p
  obtain ts where ts: "generateWithAI (\<lambda>n. real n + 1)
               (fetch_ai_generate (\<lambda>prompt. Chat [Some plan_trip_text]))
               (setAiInput (str ''Plan a trip'') sample_state)
             = Inr ((setAiInput (str ''Plan a trip'') sample_state)
                      \<lparr>todos := ts @ todos (setAiInput (str ''Plan a trip'') sample_state),
                        aiInput := [], loadingAi := False\<rparr>)"
    and f: "list_all2 from_item ts
             [VObject [(str ''task'', VString (str ''Plan trip'')),
                       (str ''subtasks'',
                        VArray [VString (str ''Book flight''), VString (str ''Pack bags'')])]]"
    by blast
  from f obtain todo where td: "ts = [todo]" and fi: "from_item todo
             (VObject [(str ''task'', VString (str ''Plan trip'')),
                       (str ''subtasks'',
                        VArray [VString (str ''Book flight''), VString (str ''Pack bags'')])])"
    by (auto simp: list_all2_Cons2)
  from fi have "todo_text todo = VString (str ''Plan trip'')"
    "map sub_text (subtasks todo) = [VString (str ''Book flight''), VString (str ''Pack bags'')]"
    by (simp_all add: from_item_def own_prop_def str_def)
  with ts td t parse_plan_trip s show ?thesis
    by (auto simp: setAiInput_def is_GeneratedTask_array_def plan_trip_value_def
        intro!: exI [of _ "[todo]"])
qed

section \<open>Failure of the completion call\<close>

text \<open>
  C5. When the handler has read a request and the completion call is rejected, the
  answer has status 500 and the body \<open>{"tasks": []}\<close>.
\<close>

theorem POST_upstream_failure:
  "get_prop req (str ''prompt'') = Inr prompt \<Longrightarrow> create prompt = CreateRejected \<Longrightarrow>
   POST create (Inr req) = Inr \<lparr>status = 500, body = VObject [(str ''tasks'', VArray [])]\<rparr>"
  by (simp add: POST_def tasks_body_def)

theorem POST_upstream_failure_witness:
  "get_prop (VObject [(str ''prompt'', VString (str ''Plan my weekend''))]) (str ''prompt'')
   = Inr (VString (str ''Plan my weekend''))
   \<and> POST (\<lambda>prompt. CreateRejected)
        (Inr (VObject [(str ''prompt'', VString (str ''Plan my weekend''))]))
     = Inr \<lparr>status = 500, body = VObject [(str ''tasks'', VArray [])]\<rparr>"
proof -
  have g: "get_prop (VObject [(str ''prompt'', VString (str ''Plan my weekend''))]) (str ''prompt'')
           = Inr (VString (str ''Plan my weekend''))"
    by (simp add: own_prop_def)
  from g POST_upstream_failure [OF g, of "\<lambda>prompt. CreateRejected"] show ?thesis
    by simp
qed

section \<open>Exceptions in the generation flow\<close>

lemma mk_todo_throws:
  "\<forall>subs. get_prop item (str ''subtasks'') \<noteq> Inr (VArray subs) \<Longrightarrow> \<exists>e. mk_todo ids item = Inl e"
  by (auto simp: mk_todo_def map_receiver_Inr split: prod.splits sum.splits)

lemma mk_todos_throws:
  "item \<in> set items \<Longrightarrow> \<forall>subs. get_prop item (str ''subtasks'') \<noteq> Inr (VArray subs) \<Longrightarrow>
   \<exists>e. mk_todos ids items = Inl e"
proof (induction items arbitrary: ids)
  case Nil
  then show ?case by simp
next
  case (Cons first items)
  show ?case
  proof (cases "mk_todo ids first")
    case (Inl e)
    then show ?thesis by simp
  next
    case (Inr r)
    obtain todo ids' where r: "r = (todo, ids')" by (cases r)
    from Inr r mk_todo_throws [of first ids]
    obtain subs where "get_prop first (str ''subtasks'') = Inr (VArray subs)"
      by auto
    with Cons.prems have "item \<in> set items"
      by auto
    from Cons.IH [OF this Cons.prems(2), of ids'] Inr r show ?thesis
      by auto
  qed
qed

lemma newTasks_throws:
  "outcome = FetchRejected \<or> outcome = FetchBody None
   \<or> (\<exists>data. outcome = FetchBody (Some data)
         \<and> (\<forall>items. get_prop data (str ''tasks'') \<noteq> Inr (VArray items)))
   \<or> (\<exists>data items. outcome = FetchBody (Some data)
         \<and> get_prop data (str ''tasks'') = Inr (VArray items)
         \<and> (\<exists>item \<in> set items. \<forall>subs. get_prop item (str ''subtasks'') \<noteq> Inr (VArray subs)))
   \<Longrightarrow> \<exists>e. newTasks ids outcome = Inl e"
  by (auto simp: newTasks_def map_receiver_Inr split: sum.splits intro: mk_todos_throws)

lemma settle_total:
  "\<exists>st'. generateWithAI_settle ids outcome st = Inr st' \<and> loadingAi st' = False
       \<and> ((\<exists>e. newTasks ids outcome = Inl e) \<longrightarrow> st' = st\<lparr>loadingAi := False\<rparr>)"
  by (auto simp: generateWithAI_settle_def split: sum.splits)

text \<open>
  C10. From the \<open>await\<close> on, and for a whole invocation, \<open>generateWithAI\<close> returns a
  state (no exception leaves it) with the loading flag lowered; when the \<open>try\<close> block
  throws, the state differs from the one before only in the loading flag, so the list is
  the one before. The block throws when the request is rejected, when the body is not
  JSON, when \<open>tasks\<close> is absent or not an array, and when an element has no array
  \<open>subtasks\<close>.
\<close>

theorem generateWithAI_all_or_nothing:
  "(\<exists>st'. generateWithAI_settle ids outcome st = Inr st' \<and> loadingAi st' = False
       \<and> ((\<exists>e. newTasks ids outcome = Inl e) \<longrightarrow> st' = st\<lparr>loadingAi := False\<rparr>))
   \<and> (\<exists>st'. generateWithAI ids fetch st = Inr st'
       \<and> (trim (aiInput st) \<noteq> [] \<longrightarrow> loadingAi st' = False)
       \<and> ((\<exists>e. newTasks ids (fetch (aiInput st)) = Inl e) \<longrightarrow> todos st' = todos st))
   \<and> (outcome = FetchRejected \<or> outcome = FetchBody None
       \<or> (\<exists>data. outcome = FetchBody (Some data)
             \<and> (\<forall>items. get_prop data (str ''tasks'') \<noteq> Inr (VArray items)))
       \<or> (\<exists>data items. outcome = FetchBody (Some data)
             \<and> get_prop data (str ''tasks'') = Inr (VArray items)
             \<and> (\<exists>item \<in> set items. \<forall>subs. get_prop item (str ''subtasks'') \<noteq> Inr (VArray subs)))
      \<longrightarrow> (\<exists>e. newTasks ids outcome = Inl e))"
proof -
  have whole: "\<exists>st'. generateWithAI ids fetch st = Inr st'
       \<and> (trim (aiInput st) \<noteq> [] \<longrightarrow> loadingAi st' = False)
       \<and> ((\<exists>e. newTasks ids (fetch (aiInput st)) = Inl e) \<longrightarrow> todos st' = todos st)"
  proof (cases "trim (aiInput st) = []")
    case True
    then show ?thesis
      by (simp add: generateWithAI_def generateWithAI_request_def)
  next
    case False
    from settle_total [of ids "fetch (aiInput st)" "st\<lparr>loadingAi := True\<rparr>"]
    obtain st' where "generateWithAI_settle ids (fetch (aiInput st)) (st\<lparr>loadingAi := True\<rparr>) = Inr st'"
      "loadingAi st' = False"
      "(\<exists>e. newTasks ids (fetch (aiInput st)) = Inl e) \<longrightarrow> st' = st\<lparr>loadingAi := True, loadingAi := False\<rparr>"
      by auto
    with False show ?thesis
      by (auto simp: generateWithAI_def generateWithAI_request_def)
  qed
  from settle_total [of ids outcome st] whole newTasks_throws [of outcome ids]
  show ?thesis by blast
qed

theorem generateWithAI_all_or_nothing_witness:
  "(\<exists>st'. generateWithAI_settle (\<lambda>n. 7) (FetchBody None) (sample_state\<lparr>loadingAi := True\<rparr>)
           = Inr st' \<and> loadingAi st' = False \<and> todos st' = todos sample_state)
   \<and> (\<exists>e. newTasks (\<lambda>n. 7) (FetchBody (Some (VObject []))) = Inl e)
   \<and> (\<exists>st'. generateWithAI (\<lambda>n. 7) (\<lambda>prompt. FetchBody (Some (VObject [])))
              (setAiInput (str ''Plan'') sample_state) = Inr st'
           \<and> loadingAi st' = False \<and> todos st' = todos sample_state)
   \<and> (\<exists>e. newTasks (\<lambda>n. 7)
             (FetchBody (Some (tasks_body (VArray
                [VObject [(str ''task'', VString (str ''A'')), (str ''subtasks'', VArray [])],
                 VObject [(str ''task'', VString (str ''B''))]])))) = Inl e)"
proof -
  have a: "\<exists>e. newTasks (\<lambda>n. 7) (FetchBody None) = Inl e"
    by (simp add: newTasks_def)
  have b: "\<forall>items. get_prop (VObject []) (str ''tasks'') \<noteq> Inr (VArray items)"
    by (simp add: own_prop_def)
  have c: "trim (aiInput (setAiInput (str ''Plan'') sample_state)) \<noteq> []"
    by (simp add: setAiInput_def trim_def str_def is_ws_def)
  have d: "get_prop (tasks_body (VArray
                [VObject [(str ''task'', VString (str ''A'')), (str ''subtasks'', VArray [])],
                 VObject [(str ''task'', VString (str ''B''))]])) (str ''tasks'')
           = Inr (VArray
                [VObject [(str ''task'', VString (str ''A'')), (str ''subtasks'', VArray [])],
                 VObject [(str ''task'', VString (str ''B''))]])"
    by (rule get_tasks_body)
  have e: "\<forall>subs. get_prop (VObject [(str ''task'', VString (str ''B''))]) (str ''subtasks'')
             \<noteq> Inr (VArray subs)"
    by (simp add: own_prop_def str_def)
  note w1 = generateWithAI_all_or_nothing
    [of "\<lambda>n. 7" "FetchBody None" "sample_state\<lparr>loadingAi := True\<rparr>"]
  note w2 = generateWithAI_all_or_nothing
    [of "\<lambda>n. 7" "FetchBody (Some (VObject []))" "setAiInput (str ''Plan'') sample_state"
      "\<lambda>prompt. FetchBody (Some (VObject []))"]
  note w3 = generateWithAI_all_or_nothing
    [of "\<lambda>n. 7" "FetchBody (Some (tasks_body (VArray
                [VObject [(str ''task'', VString (str ''A'')), (str ''subtasks'', VArray [])],
                 VObject [(str ''task'', VString (str ''B''))]])))" sample_state]
  from w1 a have 1: "\<exists>st'. generateWithAI_settle (\<lambda>n. 7) (FetchBody None) (sample_state\<lparr>loadingAi := True\<rparr>)
           = Inr st' \<and> loadingAi st' = False \<and> todos st' = todos sample_state"
    by auto
  from w2 b have 2: "\<exists>e. newTasks (\<lambda>n. 7) (FetchBody (Some (VObject []))) = Inl e"
    by blast
  from w2 2 c have 3: "\<exists>st'. generateWithAI (\<lambda>n. 7) (\<lambda>prompt. FetchBody (Some (VObject [])))
              (setAiInput (str ''Plan'') sample_state) = Inr st'
           \<and> loadingAi st' = False \<and> todos st' = todos sample_state"
    by (auto simp: setAiInput_def)
  from w3 d e have 4: "\<exists>e. newTasks (\<lambda>n. 7)
             (FetchBody (Some (tasks_body (VArray
                [VObject [(str ''task'', VString (str ''A'')), (str ''subtasks'', VArray [])],
                 VObject [(str ''task'', VString (str ''B''))]])))) = Inl e"
    by auto
  from 1 2 3 4 show ?thesis by blast
qed

section \<open>Responses that are not a list of generated tasks\<close>

lemma parse_seven_text: "JSON_parse seven_text = Some seven_value"
  by (simp add: seven_text_def seven_value_def lex_defs)

lemma get_sample_prompt:
  "get_prop sample_request (str ''prompt'') = Inr (VString (str ''Plan a trip''))"
  by (simp add: sample_request_def own_prop_def)

text \<open>
  The claim C3 fails for a text that is valid JSON of another shape: the handler passes
  \<open>[{"task":7,"subtasks":[]}]\<close> on as it is, and the page stores a task whose text is
  the number 7.
\<close>

theorem POST_unchecked_shape_counterexample:
  "JSON_parse seven_text = Some seven_value
   \<and> \<not> is_GeneratedTask_array seven_value
   \<and> POST (\<lambda>prompt. Chat [Some seven_text]) (Inr sample_request)
     = Inr \<lparr>status = 200, body = VObject [(str ''tasks'', seven_value)]\<rparr>
   \<and> seven_value \<noteq> VArray []
   \<and> generateWithAI (\<lambda>n. real n + 1) (fetch_ai_generate (\<lambda>prompt. Chat [Some seven_text]))
        (setAiInput (str ''Plan a trip'') initial_state)
     = Inr (initial_state
             \<lparr>todos := [\<lparr>todo_id = 1, todo_text = VNumber (str ''7''),
                          todo_completed = False, subtasks = []\<rparr>]\<rparr>)"
proof -
  have shape: "\<not> is_GeneratedTask_array seven_value"
    by (simp add: is_GeneratedTask_array_def is_GeneratedTask_def seven_value_def own_prop_def
        str_def)
  have post: "POST (\<lambda>prompt. Chat [Some seven_text]) (Inr sample_request)
     = Inr \<lparr>status = 200, body = VObject [(str ''tasks'', seven_value)]\<rparr>"
    by (simp add: POST_chat [OF get_sample_prompt] parse_seven_text tasks_body_def)
  have t: "trim (str ''Plan a trip'') \<noteq> []"
    by (simp add: trim_def str_def is_ws_def)
  have n: "newTasks (\<lambda>n. real n + 1)
             (fetch_ai_generate (\<lambda>prompt. Chat [Some seven_text]) (str ''Plan a trip''))
           = Inr [\<lparr>todo_id = 1, todo_text = VNumber (str ''7''), todo_completed = False,
                   subtasks = []\<rparr>]"
    by (simp add: fetch_chat parse_seven_text newTasks_def get_tasks_body)
      (simp add: seven_value_def mk_todo_def getId_def own_prop_def str_def)
  have gen: "generateWithAI (\<lambda>n. real n + 1) (fetch_ai_generate (\<lambda>prompt. Chat [Some seven_text]))
        (setAiInput (str ''Plan a trip'') initial_state)
     = Inr (initial_state
             \<lparr>todos := [\<lparr>todo_id = 1, todo_text = VNumber (str ''7''),
                          todo_completed = False, subtasks = []\<rparr>]\<rparr>)"
    using t
    by (simp add: generateWithAI_def generateWithAI_request_def generateWithAI_settle_def
        setAiInput_def n)
      (simp add: initial_state_def)
  have ne: "seven_value \<noteq> VArray []"
    by (simp add: seven_value_def)
  from parse_seven_text shape post ne gen show ?thesis by blast
qed

lemma settle_all_or_none:
  "\<exists>st'. generateWithAI_settle ids outcome st = Inr st'
     \<and> (todos st' = todos st
        \<or> (\<exists>data items ts. outcome = FetchBody (Some data)
              \<and> get_prop data (str ''tasks'') = Inr (VArray items)
              \<and> list_all2 from_item ts items \<and> todos st' = ts @ todos st))"
proof (cases "newTasks ids outcome")
  case (Inl e)
  then show ?thesis by (simp add: generateWithAI_settle_def)
next
  case (Inr ts)
  then obtain data items where "outcome = FetchBody (Some data)"
    "get_prop data (str ''tasks'') = Inr (VArray items)" "mk_todos ids items = Inr ts"
    by (auto simp: newTasks_def map_receiver_Inr split: fetch_outcome.splits option.splits sum.splits)
  with Inr mk_todos_Inr [of ids items ts] show ?thesis
    by (auto simp: generateWithAI_settle_def)
qed

text \<open>
  C3, amended. When the handler has read a request and the completion returns a chat,
  a content that is not valid JSON (\<open>null\<close>, read as the empty text, included) is answered
  with status 200 and an empty task list, nothing being raised; a content that is valid
  JSON is answered with status 200 and the parsed value as \<open>tasks\<close>, whatever its shape.
  On the page the elements of a response are applied all or none: after the request
  settles the list is the former one, or one new entry per element of \<open>tasks\<close> in front
  of the former one.
\<close>

theorem POST_parse_failure_empty:
  "(get_prop req (str ''prompt'') = Inr prompt \<and> create prompt = Chat (content # others) \<longrightarrow>
      (JSON_parse (case content of None \<Rightarrow> [] | Some raw \<Rightarrow> raw) = None \<longrightarrow>
         POST create (Inr req) = Inr \<lparr>status = 200, body = VObject [(str ''tasks'', VArray [])]\<rparr>)
      \<and> (\<forall>v. JSON_parse (case content of None \<Rightarrow> [] | Some raw \<Rightarrow> raw) = Some v \<longrightarrow>
           POST create (Inr req) = Inr \<lparr>status = 200, body = VObject [(str ''tasks'', v)]\<rparr>))
   \<and> (\<exists>st'. generateWithAI_settle ids outcome st = Inr st'
        \<and> (todos st' = todos st
           \<or> (\<exists>data items ts. outcome = FetchBody (Some data)
                 \<and> get_prop data (str ''tasks'') = Inr (VArray items)
                 \<and> list_all2 from_item ts items \<and> todos st' = ts @ todos st)))"
  using settle_all_or_none [of ids outcome st]
  by (auto simp: POST_chat tasks_body_def)

theorem POST_parse_failure_empty_witness:
  "get_prop sample_request (str ''prompt'') = Inr (VString (str ''Plan a trip''))
   \<and> JSON_parse (str ''not json'') = None
   \<and> POST (\<lambda>prompt. Chat [Some (str ''not json'')]) (Inr sample_request)
     = Inr \<lparr>status = 200, body = VObject [(str ''tasks'', VArray [])]\<rparr>
   \<and> JSON_parse [] = None
   \<and> POST (\<lambda>prompt. Chat [None]) (Inr sample_request)
     = Inr \<lparr>status = 200, body = VObject [(str ''tasks'', VArray [])]\<rparr>
   \<and> JSON_parse plan_trip_text = Some plan_trip_value
   \<and> POST (\<lambda>prompt. Chat [Some plan_trip_text]) (Inr sample_request)
     = Inr \<lparr>status = 200, body = VObject [(str ''tasks'', plan_trip_value)]\<rparr>"
  using POST_parse_failure_empty
      [of sample_request "VString (str ''Plan a trip'')"
        "\<lambda>prompt. Chat [Some (str ''not json'')]" "Some (str ''not json'')" "[]"]
    POST_parse_failure_empty
      [of sample_request "VString (str ''Plan a trip'')" "\<lambda>prompt. Chat [None]" None "[]"]
    POST_parse_failure_empty
      [of sample_request "VString (str ''Plan a trip'')"
        "\<lambda>prompt. Chat [Some plan_trip_text]" "Some plan_trip_text" "[]"]
    get_sample_prompt parse_not_json parse_empty parse_plan_trip
  by simp

section \<open>Blank texts\<close>

lemma trim_not_blank: "trim v \<noteq> [] \<Longrightarrow> \<not> list_all is_ws (trim v)"
proof -
  assume ne: "trim v \<noteq> []"
  define b where "b = dropWhile is_ws (rev (dropWhile is_ws v))"
  from ne have bne: "b \<noteq> []"
    by (simp add: trim_def b_def)
  then have "\<not> is_ws (hd b)"
    unfolding b_def by (rule hd_dropWhile)
  moreover from bne have "hd b \<in> set (trim v)"
    by (simp add: trim_def b_def)
  ultimately show ?thesis
    by (auto simp: list_all_iff)
qed

lemma no_blank_Cons:
  "no_blank (todo # ts) \<longleftrightarrow>
     \<not> blank_text (todo_text todo)
     \<and> list_all (\<lambda>sub. \<not> blank_text (sub_text sub)) (subtasks todo) \<and> no_blank ts"
  by (simp add: no_blank_def)

lemma no_blank_Nil: "no_blank []"
  by (simp add: no_blank_def)

lemma no_blank_addSubtask_map:
  "no_blank ts \<Longrightarrow> \<not> list_all is_ws t \<Longrightarrow> no_blank (addSubtask_map ids tid t ts)"
  by (induction ts arbitrary: ids) (auto simp: no_blank_Cons no_blank_Nil getId_def)

lemma no_blank_filter: "no_blank ts \<Longrightarrow> no_blank (filter P ts)"
  by (induction ts) (auto simp: no_blank_Cons no_blank_Nil)

lemma no_blank_toggleTodo: "no_blank (todos st) \<Longrightarrow> no_blank (todos (toggleTodo i st))"
proof -
  have "no_blank ts \<Longrightarrow>
        no_blank (map (\<lambda>todo. if todo_id todo = i
                               then todo\<lparr>todo_completed := \<not> todo_completed todo\<rparr>
                               else todo) ts)" for ts
    by (induction ts) (auto simp: no_blank_Cons no_blank_Nil)
  then show "no_blank (todos st) \<Longrightarrow> no_blank (todos (toggleTodo i st))"
    by (simp add: toggleTodo_def)
qed

lemma sub_toggle_texts:
  "list_all (\<lambda>sub. \<not> blank_text (sub_text sub)) ss \<Longrightarrow>
   list_all (\<lambda>sub. \<not> blank_text (sub_text sub))
     (map (\<lambda>sub. if sub_id sub = j then sub\<lparr>sub_completed := \<not> sub_completed sub\<rparr> else sub) ss)"
  by (induction ss) auto

lemma no_blank_toggleSubtask:
  "no_blank (todos st) \<Longrightarrow> no_blank (todos (toggleSubtask i j st))"
proof -
  have "no_blank ts \<Longrightarrow>
        no_blank (map (\<lambda>todo. if todo_id todo = i
                     then todo\<lparr>subtasks :=
                            map (\<lambda>sub. if sub_id sub = j
                                        then sub\<lparr>sub_completed := \<not> sub_completed sub\<rparr>
                                        else sub)
                              (subtasks todo)\<rparr>
                     else todo) ts)" for ts
    by (induction ts) (auto simp: no_blank_Cons no_blank_Nil sub_toggle_texts)
  then show "no_blank (todos st) \<Longrightarrow> no_blank (todos (toggleSubtask i j st))"
    by (simp add: toggleSubtask_def)
qed

lemma no_blank_dispatch:
  "no_blank (todos st) \<Longrightarrow> \<not> is_generate a \<Longrightarrow> no_blank (todos (dispatch st a))"
proof (cases a)
  case (AddTodo ids)
  assume "no_blank (todos st)"
  with AddTodo show ?thesis
    by (auto simp: addTodo_def Let_def no_blank_Cons dest: trim_not_blank)
next
  case (SubtaskSubmit ids i)
  assume "no_blank (todos st)"
  with SubtaskSubmit show ?thesis
    by (auto simp: handleSubtaskSubmit_def addSubtask_def split: option.splits
        intro: no_blank_addSubtask_map dest: trim_not_blank)
qed (auto simp: setNewTodo_def setAiInput_def handleSubtaskInputChange_def deleteTodo_def
    no_blank_filter no_blank_toggleTodo no_blank_toggleSubtask)

text \<open>
  C2, amended. The operations of the user on the list (typing, adding a task, submitting
  a subtask form, toggling, deleting) keep the list free of blank texts: from a list
  without a blank task or subtask text, every sequence of actions that contains no
  generation leads to such a list again.
\<close>

theorem user_actions_no_blank:
  "no_blank (todos st) \<Longrightarrow> list_all (\<lambda>a. \<not> is_generate a) acts \<Longrightarrow>
   no_blank (todos (run_actions st acts))"
  unfolding run_actions_def
  by (induction acts arbitrary: st) (auto intro: no_blank_dispatch)

text \<open>
  The claim C2 fails on the generation flow, which stores the texts of the response as
  they come: the response \<open>[{"task":"","subtasks":[" "]}]\<close> puts a task with the empty
  text and a subtask with the text of one space into the empty list.
\<close>

lemma parse_blank_response:
  "JSON_parse blank_text_response
   = Some (VArray [VObject [(str ''task'', VString []), (str ''subtasks'', VArray [VString (str '' '')])]])"
  by (simp add: blank_text_response_def lex_defs)

theorem generated_blank_counterexample:
  "no_blank (todos initial_state)
   \<and> todos (run_actions initial_state
        [SetAiInput (str ''Plan a trip''),
         GenerateWithAI (\<lambda>n. real n + 1)
           (fetch_ai_generate (\<lambda>prompt. Chat [Some blank_text_response]))])
     = [\<lparr>todo_id = 1, todo_text = VString [], todo_completed = False,
         subtasks = [\<lparr>sub_id = 2, sub_text = VString (str '' ''), sub_completed = False\<rparr>]\<rparr>]
   \<and> \<not> no_blank (todos (run_actions initial_state
        [SetAiInput (str ''Plan a trip''),
         GenerateWithAI (\<lambda>n. real n + 1)
           (fetch_ai_generate (\<lambda>prompt. Chat [Some blank_text_response]))]))"
proof -
  have t: "trim (str ''Plan a trip'') \<noteq> []"
    by (simp add: trim_def str_def is_ws_def)
  have n: "newTasks (\<lambda>n. real n + 1)
             (fetch_ai_generate (\<lambda>prompt. Chat [Some blank_text_response]) (str ''Plan a trip''))
           = Inr [\<lparr>todo_id = 1, todo_text = VString [], todo_completed = False,
         subtasks = [\<lparr>sub_id = 2, sub_text = VString (str '' ''), sub_completed = False\<rparr>]\<rparr>]"
    by (simp add: fetch_chat parse_blank_response newTasks_def get_tasks_body)
      (simp add: mk_todo_def getId_def own_prop_def str_def)
  have r: "todos (run_actions initial_state
        [SetAiInput (str ''Plan a trip''),
         GenerateWithAI (\<lambda>n. real n + 1)
           (fetch_ai_generate (\<lambda>prompt. Chat [Some blank_text_response]))])
     = [\<lparr>todo_id = 1, todo_text = VString [], todo_completed = False,
         subtasks = [\<lparr>sub_id = 2, sub_text = VString (str '' ''), sub_completed = False\<rparr>]\<rparr>]"
    using t
    by (simp add: run_actions_def generateWithAI_def generateWithAI_request_def
        generateWithAI_settle_def setAiInput_def n)
      (simp add: initial_state_def)
  have i: "no_blank (todos initial_state)"
    by (simp add: initial_state_def no_blank_def)
  have "\<not> no_blank [\<lparr>todo_id = 1, todo_text = VString [], todo_completed = False,
         subtasks = [\<lparr>sub_id = 2, sub_text = VString (str '' ''), sub_completed = False\<rparr>]\<rparr>]"
    by (simp add: no_blank_def)
  with r i show ?thesis by simp
qed

theorem user_actions_no_blank_witness:
  "no_blank (todos initial_state)
   \<and> list_all (\<lambda>a. \<not> is_generate a)
        [SetNewTodo (str '' Buy milk ''), AddTodo (\<lambda>n. 1), SetNewTodo (str ''  ''),
         AddTodo (\<lambda>n. 2), SubtaskInputChange 1 (str ''   ''), SubtaskSubmit (\<lambda>n. 3) 1,
         SubtaskInputChange 1 (str '' Oat''), SubtaskSubmit (\<lambda>n. 4) 1, ToggleTodo 1,
         ToggleSubtask 1 4]
   \<and> todos (run_actions initial_state
        [SetNewTodo (str '' Buy milk ''), AddTodo (\<lambda>n. 1), SetNewTodo (str ''  ''),
         AddTodo (\<lambda>n. 2), SubtaskInputChange 1 (str ''   ''), SubtaskSubmit (\<lambda>n. 3) 1,
         SubtaskInputChange 1 (str '' Oat''), SubtaskSubmit (\<lambda>n. 4) 1, ToggleTodo 1,
         ToggleSubtask 1 4])
     = [\<lparr>todo_id = 1, todo_text = VString (str ''Buy milk''), todo_completed = True,
         subtasks = [\<lparr>sub_id = 4, sub_text = VString (str ''Oat''), sub_completed = True\<rparr>]\<rparr>]
   \<and> no_blank (todos (run_actions initial_state
        [SetNewTodo (str '' Buy milk ''), AddTodo (\<lambda>n. 1), SetNewTodo (str ''  ''),
         AddTodo (\<lambda>n. 2), SubtaskInputChange 1 (str ''   ''), SubtaskSubmit (\<lambda>n. 3) 1,
         SubtaskInputChange 1 (str '' Oat''), SubtaskSubmit (\<lambda>n. 4) 1, ToggleTodo 1,
         ToggleSubtask 1 4]))"
proof -
  have i: "no_blank (todos initial_state)"
    by (simp add: initial_state_def no_blank_def)
  have u: "list_all (\<lambda>a. \<not> is_generate a)
        [SetNewTodo (str '' Buy milk ''), AddTodo (\<lambda>n. 1), SetNewTodo (str ''  ''),
         AddTodo (\<lambda>n. 2), SubtaskInputChange 1 (str ''   ''), SubtaskSubmit (\<lambda>n. 3) 1,
         SubtaskInputChange 1 (str '' Oat''), SubtaskSubmit (\<lambda>n. 4) 1, ToggleTodo 1,
         ToggleSubtask 1 4]"
    by simp
  have t: "trim (str '' Buy milk '') = str ''Buy milk''" "trim (str ''  '') = []"
    "trim (str ''   '') = []" "trim (str '' Oat'') = str ''Oat''" "trim [] = []"
    by (simp_all add: trim_def str_def is_ws_def)
  have ne: "str ''Buy milk'' \<noteq> []" "str ''Oat'' \<noteq> []"
    by (simp_all add: str_def)
  have r: "todos (run_actions initial_state
        [SetNewTodo (str '' Buy milk ''), AddTodo (\<lambda>n. 1), SetNewTodo (str ''  ''),
         AddTodo (\<lambda>n. 2), SubtaskInputChange 1 (str ''   ''), SubtaskSubmit (\<lambda>n. 3) 1,
         SubtaskInputChange 1 (str '' Oat''), SubtaskSubmit (\<lambda>n. 4) 1, ToggleTodo 1,
         ToggleSubtask 1 4])
     = [\<lparr>todo_id = 1, todo_text = VString (str ''Buy milk''), todo_completed = True,
         subtasks = [\<lparr>sub_id = 4, sub_text = VString (str ''Oat''), sub_completed = True\<rparr>]\<rparr>]"
    by (simp add: run_actions_def initial_state_def setNewTodo_def addTodo_def
        handleSubtaskInputChange_def handleSubtaskSubmit_def addSubtask_def toggleTodo_def
        toggleSubtask_def getId_def t ne Let_def)
  from user_actions_no_blank [OF i u] i u r show ?thesis
    by blast
qed

end
